theory Spec2Isabelle
  imports Main "HOL-Library.Monad_Syntax" "HOL-Library.Signed_Division"
begin

section \<open>The demo's main function (display.c)\<close>

text \<open>
  The repository's only source file is \<^verbatim>\<open>display.c\<close>, whose \<^verbatim>\<open>main\<close> parses the command
  line, loads a configuration of four flags, builds the rotation list in a four-element
  array, opens the display and cycles through the enabled screens for ever.

  The driver, the configuration loader, the network helper, \<^verbatim>\<open>printf\<close> and \<^verbatim>\<open>sleep\<close> are
  external. Each call to one of them is an event of a trace, in program order; what they
  return to \<^verbatim>\<open>main\<close> (the loader's result and the configuration it leaves, the value of
  the global \<^verbatim>\<open>i2cd\<close> after \<^verbatim>\<open>ssd1306_begin\<close>) is a parameter of the model.
\<close>

subsection \<open>Data\<close>

text \<open>\<^verbatim>\<open>struct DisplayConfig\<close>: four flags, initialised by \<^verbatim>\<open>{1,1,1,1}\<close>.\<close>

record DisplayConfig =
  show_temperature :: bool
  show_cpu_memory :: bool
  show_sd_memory :: bool
  show_hostname :: bool

text \<open>The calls \<^verbatim>\<open>main\<close> makes to the outside, with their arguments. \<^verbatim>\<open>Sleep\<close> counts
  seconds, \<^verbatim>\<open>Usleep\<close> microseconds.\<close>

datatype event =
    Load_display_config string bool
  | Printf string
  | Ssd1306_begin
  | Usleep nat
  | FirstGetIpAddress
  | LCD_DisplayHostname
  | Sleep nat
  | LCD_Display int

text \<open>What the outside gives back: the loader takes the file name, the configuration it
  was handed and the debug flag, and returns its success indicator with the configuration
  it leaves behind the pointer; \<^verbatim>\<open>i2cd\<close> is the global handle as \<^verbatim>\<open>ssd1306_begin\<close> leaves it.\<close>

record environment =
  loader :: "string \<Rightarrow> DisplayConfig \<Rightarrow> bool \<Rightarrow> bool \<times> DisplayConfig"
  i2cd :: int

text \<open>How a run ends: \<^verbatim>\<open>main\<close> returned a status, or the rotation loop is still running
  when the fuel (a number of loop iterations) is used up, with the cursor it has reached,
  or an array access was out of bounds or read a slot never written.\<close>

datatype outcome = Returned int | Running int | Undefined_behaviour

subsection \<open>Command line (lines 13-18)\<close>

text \<open>\<^verbatim>\<open>strcmp\<close> of the C library, on the characters before the terminator: zero on equal
  strings, otherwise the sign of the first difference, bytes compared as unsigned.\<close>

fun strcmp :: "string \<Rightarrow> string \<Rightarrow> int" where
  "strcmp [] [] = 0"
| "strcmp [] (y # ys) = - 1"
| "strcmp (x # xs) [] = 1"
| "strcmp (x # xs) (y # ys) =
     (if x = y then strcmp xs ys
      else if (of_char x :: nat) < of_char y then - 1 else 1)"

text \<open>\<^verbatim>\<open>for (int i = 1; i < argc; ++i)\<close> with \<^verbatim>\<open>argc\<close> the length of \<^verbatim>\<open>argv\<close>.\<close>

function args_loop :: "string list \<Rightarrow> nat \<Rightarrow> bool \<Rightarrow> bool" where
  "args_loop argv i debug =
     (if i < length argv then
        args_loop argv (Suc i)
          (if strcmp (argv ! i) ''-d'' = 0 \<or> strcmp (argv ! i) ''--debug'' = 0
           then True else debug)
      else debug)"
  by pat_completeness auto
termination
  by (relation "measure (\<lambda>(argv, i, debug). length argv - i)") auto

declare args_loop.simps [simp del]

subsection \<open>The rotation list (lines 20-28)\<close>

text \<open>\<^verbatim>\<open>int display_order[4]\<close> is not initialised: a slot holds \<open>None\<close> until it is written.
  A store or a load outside the array, and a load of a slot never written, have no
  defined result in C; the model returns \<open>None\<close> for them.\<close>

type_synonym int_array = "int option list"

definition array_store :: "int_array \<Rightarrow> int \<Rightarrow> int \<Rightarrow> int_array option" where
  "array_store a i v =
     (if 0 \<le> i \<and> i < int (length a) then Some (a[nat i := Some v]) else None)"

definition array_load :: "int_array \<Rightarrow> int \<Rightarrow> int option" where
  "array_load a i = (if 0 \<le> i \<and> i < int (length a) then a ! nat i else None)"

text \<open>\<^verbatim>\<open>if (flag) display_order[display_count++] = screen;\<close> on the pair of the array and
  the count.\<close>

definition push_screen :: "bool \<Rightarrow> int \<Rightarrow> int_array \<times> int \<Rightarrow> (int_array \<times> int) option" where
  "push_screen flag screen s =
     (if flag then
        (case array_store (fst s) (snd s) screen of
           None \<Rightarrow> None
         | Some a \<Rightarrow> Some (a, snd s + 1))
      else Some s)"

definition build_display_order :: "DisplayConfig \<Rightarrow> (int_array \<times> int) option" where
  "build_display_order config =
     push_screen (show_temperature config) 0 (replicate 4 None, 0) \<bind>
     push_screen (show_cpu_memory config) 1 \<bind>
     push_screen (show_sd_memory config) 2 \<bind>
     push_screen (show_hostname config) 3"

text \<open>The rotation list is the written part of the array: its first \<^verbatim>\<open>display_count\<close>
  slots.\<close>

definition rotation_list :: "DisplayConfig \<Rightarrow> int list option" where
  "rotation_list config =
     build_display_order config \<bind> (\<lambda>(display_order, display_count).
       those (take (nat display_count) display_order))"

subsection \<open>The rotation loop (lines 42-50)\<close>

text \<open>One unit of fuel is one iteration of \<^verbatim>\<open>while(display_count > 0)\<close>. The remainder
  is C's, truncated towards zero. \<^verbatim>\<open>display_count\<close> and \<^verbatim>\<open>idx\<close> are C \<^verbatim>\<open>int\<close>s, modelled
  by unbounded integers: in every run they stay between 0 and 4 (see the section on array
  bounds), so \<^verbatim>\<open>idx + 1\<close> and \<^verbatim>\<open>display_count++\<close> never wrap.\<close>

fun rotation_loop :: "nat \<Rightarrow> int_array \<Rightarrow> int \<Rightarrow> int \<Rightarrow> event list \<times> outcome" where
  "rotation_loop 0 display_order display_count idx =
     (if display_count > 0 then ([], Running idx) else ([], Returned 0))"
| "rotation_loop (Suc fuel) display_order display_count idx =
     (if display_count > 0 then
        (case array_load display_order idx of
           None \<Rightarrow> ([], Undefined_behaviour)
         | Some screen \<Rightarrow>
             (case rotation_loop fuel display_order display_count
                     ((idx + 1) smod display_count) of
                (tr, r) \<Rightarrow> ([LCD_Display screen, Sleep 1, Sleep 1, Sleep 1] @ tr, r)))
      else ([], Returned 0))"

subsection \<open>main\<close>

definition warning_text :: string where
  "warning_text =
     ''Warning: Could not load display_config.yaml, using defaults.'' @ [CHR 0x0A]"

definition i2c_error_text :: string where
  "i2c_error_text = ''I2C device failed to open'' @ [CHR 0x0D, CHR 0x0A]"

definition default_config :: DisplayConfig where
  "default_config =
     \<lparr>show_temperature = True, show_cpu_memory = True,
      show_sd_memory = True, show_hostname = True\<rparr>"

definition main :: "environment \<Rightarrow> string list \<Rightarrow> nat \<Rightarrow> event list \<times> outcome" where
  "main env argv fuel =
     (let debug = args_loop argv 1 False;
          (ok, config) = loader env ''display.cfg'' default_config debug;
          tr1 = [Load_display_config ''display.cfg'' debug] @
                (if \<not> ok then [Printf warning_text] else [])
      in case build_display_order config of
           None \<Rightarrow> (tr1, Undefined_behaviour)
         | Some (display_order, display_count) \<Rightarrow>
             (let tr2 = tr1 @ [Ssd1306_begin] in
              if i2cd env < 0 then (tr2 @ [Printf i2c_error_text], Returned 0)
              else
                (let tr3 = tr2 @ [Usleep (150 * 1000), FirstGetIpAddress] @
                           (if show_hostname config then [LCD_DisplayHostname, Sleep 3]
                            else [])
                 in case rotation_loop fuel display_order display_count 0 of
                      (tr, r) \<Rightarrow> (tr3 @ tr, r))))"

text \<open>The parts of a run of \<^verbatim>\<open>main\<close> that the statements below name: the debug flag
  computed from the command line, the loader's answer, the configuration the rest of
  \<^verbatim>\<open>main\<close> reads, and the events up to the loader's return (with the warning when the
  loader reports failure).\<close>

definition debug_flag :: "string list \<Rightarrow> bool" where
  "debug_flag argv = args_loop argv 1 False"

definition load_ok :: "environment \<Rightarrow> string list \<Rightarrow> bool" where
  "load_ok env argv = fst (loader env ''display.cfg'' default_config (debug_flag argv))"

definition loaded_config :: "environment \<Rightarrow> string list \<Rightarrow> DisplayConfig" where
  "loaded_config env argv =
     snd (loader env ''display.cfg'' default_config (debug_flag argv))"

definition load_trace :: "environment \<Rightarrow> string list \<Rightarrow> event list" where
  "load_trace env argv =
     [Load_display_config ''display.cfg'' (debug_flag argv)] @
     (if \<not> load_ok env argv then [Printf warning_text] else [])"

subsection \<open>The configuration loader\<close>

text \<open>Modelled from the spec: \<^verbatim>\<open>load_display_config\<close> is declared in \<^verbatim>\<open>ssd1306_i2c.h\<close> and
  defined outside the sources at hand. The spec says of it that it "parses a small
  configuration file into four boolean flags indicating which screens are enabled;
  returns a success/failure indicator and leaves defaults in place on failure". What the
  file parses to is the first argument, \<open>None\<close> for a file that is absent or cannot be
  parsed.\<close>

definition load_display_config ::
  "DisplayConfig option \<Rightarrow> string \<Rightarrow> DisplayConfig \<Rightarrow> bool \<Rightarrow> bool \<times> DisplayConfig" where
  "load_display_config parsed path config debug =
     (case parsed of None \<Rightarrow> (False, config) | Some c \<Rightarrow> (True, c))"

subsection \<open>Observations on traces\<close>

text \<open>The screens passed to \<^verbatim>\<open>LCD_Display\<close>, in order.\<close>

fun renders :: "event list \<Rightarrow> int list" where
  "renders [] = []"
| "renders (LCD_Display s # es) = s # renders es"
| "renders (e # es) = renders es"

text \<open>A rendering call is a call of \<^verbatim>\<open>LCD_Display\<close> or of \<^verbatim>\<open>LCD_DisplayHostname\<close>.\<close>

fun is_render :: "event \<Rightarrow> bool" where
  "is_render (LCD_Display s) = True"
| "is_render LCD_DisplayHostname = True"
| "is_render e = False"

text \<open>Time in microseconds: a call of \<^verbatim>\<open>sleep\<close> or \<^verbatim>\<open>usleep\<close> lets time pass, every other
  event is observed at the time it happens. The timeline of a trace started at time \<open>t\<close>
  is the list of the observed events with their times, and the time at the end.\<close>

fun timeline :: "nat \<Rightarrow> event list \<Rightarrow> (nat \<times> event) list \<times> nat" where
  "timeline t [] = ([], t)"
| "timeline t (Sleep n # es) = timeline (t + n * 1000000) es"
| "timeline t (Usleep n # es) = timeline (t + n) es"
| "timeline t (e # es) = (case timeline t es of (obs, t') \<Rightarrow> ((t, e) # obs, t'))"

text \<open>The loop as the spec words it, for comparison with \<open>rotation_loop\<close>: "render the
  screen at the current cursor, pause a fixed duration, advance the cursor modulo the list
  length", the pause being one pause of 3 units.\<close>

fun rotation_loop_single_pause ::
  "nat \<Rightarrow> int_array \<Rightarrow> int \<Rightarrow> int \<Rightarrow> event list \<times> outcome" where
  "rotation_loop_single_pause 0 display_order display_count idx =
     (if display_count > 0 then ([], Running idx) else ([], Returned 0))"
| "rotation_loop_single_pause (Suc fuel) display_order display_count idx =
     (if display_count > 0 then
        (case array_load display_order idx of
           None \<Rightarrow> ([], Undefined_behaviour)
         | Some screen \<Rightarrow>
             (case rotation_loop_single_pause fuel display_order display_count
                     ((idx + 1) smod display_count) of
                (tr, r) \<Rightarrow> ([LCD_Display screen, Sleep 3] @ tr, r)))
      else ([], Returned 0))"

text \<open>\<open>precedes a b tr\<close>: both events occur in the trace and the first \<open>a\<close> comes before
  the first \<open>b\<close>.\<close>

definition precedes :: "event \<Rightarrow> event \<Rightarrow> event list \<Rightarrow> bool" where
  "precedes a b tr = (a \<in> set (takeWhile (\<lambda>e. e \<noteq> b) tr) \<and> b \<in> set tr)"

text \<open>The identifiers of the enabled screens in the fixed order, as a list.\<close>

definition enabled_screens :: "DisplayConfig \<Rightarrow> int list" where
  "enabled_screens config =
     map snd (filter fst [(show_temperature config, 0), (show_cpu_memory config, 1),
                          (show_sd_memory config, 2), (show_hostname config, 3)])"

text \<open>The events of the iteration numbered \<open>i\<close> (from 0) of a loop that started with
  the cursor at 0 on the rotation list \<open>screens\<close>.\<close>

definition iteration_events :: "int list \<Rightarrow> nat \<Rightarrow> event list" where
  "iteration_events screens i =
     [LCD_Display (screens ! (i mod length screens)), Sleep 1, Sleep 1, Sleep 1]"

subsection \<open>Sample surroundings\<close>

text \<open>A loader that answers with a fixed indicator and a fixed configuration, and two
  configurations: the spec's example and the one with every screen off.\<close>

definition loader_yielding ::
  "bool \<Rightarrow> DisplayConfig \<Rightarrow> string \<Rightarrow> DisplayConfig \<Rightarrow> bool \<Rightarrow> bool \<times> DisplayConfig" where
  "loader_yielding ok c path config debug = (ok, c)"

definition sample_env :: "bool \<Rightarrow> DisplayConfig \<Rightarrow> int \<Rightarrow> environment" where
  "sample_env ok c handle = \<lparr>loader = loader_yielding ok c, i2cd = handle\<rparr>"

definition config_0_2 :: DisplayConfig where
  "config_0_2 =
     \<lparr>show_temperature = True, show_cpu_memory = False,
      show_sd_memory = True, show_hostname = False\<rparr>"

definition config_none :: DisplayConfig where
  "config_none =
     \<lparr>show_temperature = False, show_cpu_memory = False,
      show_sd_memory = False, show_hostname = False\<rparr>"

section \<open>Auxiliary facts\<close>

lemma build_display_order_cases:
  "build_display_order \<lparr>show_temperature = t, show_cpu_memory = c,
      show_sd_memory = s, show_hostname = h\<rparr> =
   Some (map Some (map snd (filter fst [(t, 0), (c, 1), (s, 2), (h, 3)])) @
           replicate (4 - length (filter fst [(t, 0::int), (c, 1), (s, 2), (h, 3)])) None,
         int (length (filter fst [(t, 0::int), (c, 1), (s, 2), (h, 3)])))"
  by (cases t; cases c; cases s; cases h)
     (simp_all add: build_display_order_def push_screen_def array_store_def
        numeral_eq_Suc)

lemma strcmp_zero_iff: "strcmp a b = 0 \<longleftrightarrow> a = b"
  by (induction a b rule: strcmp.induct) auto

lemma args_loop_char:
  "args_loop argv i debug \<longleftrightarrow>
     debug \<or> (\<exists>j. i \<le> j \<and> j < length argv \<and> (argv ! j = ''-d'' \<or> argv ! j = ''--debug''))"
proof (induction argv i debug rule: args_loop.induct)
  case (1 argv i debug)
  show ?case
  proof (cases "i < length argv")
    case False
    then show ?thesis by (subst args_loop.simps) auto
  next
    case True
    have step: "args_loop argv i debug =
        args_loop argv (Suc i) (if argv ! i = ''-d'' \<or> argv ! i = ''--debug'' then True else debug)"
      using True by (subst args_loop.simps) (simp add: strcmp_zero_iff)
    have "(\<exists>j. i \<le> j \<and> j < length argv \<and> (argv ! j = ''-d'' \<or> argv ! j = ''--debug'')) \<longleftrightarrow>
          (argv ! i = ''-d'' \<or> argv ! i = ''--debug'') \<or>
          (\<exists>j. Suc i \<le> j \<and> j < length argv \<and> (argv ! j = ''-d'' \<or> argv ! j = ''--debug''))"
      (is "?L \<longleftrightarrow> ?R")
    proof
      assume ?L
      then obtain j where j: "i \<le> j" "j < length argv" "argv ! j = ''-d'' \<or> argv ! j = ''--debug''"
        by blast
      show ?R
      proof (cases "j = i")
        case True
        with j show ?thesis by simp
      next
        case False
        with j have "Suc i \<le> j" by simp
        with j show ?thesis by blast
      qed
    next
      assume ?R
      then show ?L using True by (auto intro: Suc_leD)
    qed
    then show ?thesis
      using 1 [OF True] step by (simp add: strcmp_zero_iff split: if_splits) 
  qed
qed

lemma main_eq:
  "main env argv fuel =
     (case build_display_order (loaded_config env argv) of
        None \<Rightarrow> (load_trace env argv, Undefined_behaviour)
      | Some (display_order, display_count) \<Rightarrow>
          if i2cd env < 0
          then (load_trace env argv @ [Ssd1306_begin, Printf i2c_error_text], Returned 0)
          else (load_trace env argv @ [Ssd1306_begin, Usleep 150000, FirstGetIpAddress] @
                (if show_hostname (loaded_config env argv) then [LCD_DisplayHostname, Sleep 3] else []) @
                fst (rotation_loop fuel display_order display_count 0),
                snd (rotation_loop fuel display_order display_count 0)))"
  by (simp add: main_def loaded_config_def load_trace_def load_ok_def debug_flag_def Let_def
      split: prod.splits option.splits)

lemma rotation_list_eq:
  "rotation_list config =
     Some (map snd (filter fst [(show_temperature config, 0), (show_cpu_memory config, 1),
                                 (show_sd_memory config, 2), (show_hostname config, 3)]))"
proof (cases config)
  case (fields t c s h)
  show ?thesis
    unfolding fields rotation_list_def build_display_order_cases
    by (cases t; cases c; cases s; cases h) simp_all
qed

lemma smod_nat: "(int a + 1) smod int n = int (Suc a mod n)"
  by (simp add: signed_modulo_int_def zmod_int add.commute)

lemma array_load_prefix:
  "idx < length screens \<Longrightarrow>
   array_load (map Some screens @ rest) (int idx) = Some (screens ! idx)"
  by (simp add: array_load_def nth_append)

lemma concat_iterations_Suc:
  "concat (map f [0..<Suc k]) = f 0 @ concat (map (\<lambda>i. f (Suc i)) [0..<k])"
proof -
  have "[0..<Suc k] = 0 # map Suc [0..<k]"
    by (simp add: upt_conv_Cons map_Suc_upt del: upt_Suc)
  then show ?thesis by (simp add: comp_def del: upt_Suc)
qed

lemma rotation_loop_from:
  "idx < length screens \<Longrightarrow>
   rotation_loop k (map Some screens @ rest) (int (length screens)) (int idx) =
     (concat (map (\<lambda>i. iteration_events screens (idx + i)) [0..<k]),
      Running (int ((idx + k) mod length screens)))"
proof (induction k arbitrary: idx)
  case 0
  then show ?case by auto
next
  case (Suc k)
  let ?n = "length screens"
  have pos: "0 < ?n" using Suc.prems by auto
  then have lt: "Suc idx mod ?n < ?n" by (rule mod_less_divisor)
  have shift: "(Suc idx mod ?n + i) mod ?n = (idx + Suc i) mod ?n" for i
    by (metis add_Suc add_Suc_right mod_add_left_eq)
  have its: "iteration_events screens (Suc idx mod ?n + i) = iteration_events screens (idx + Suc i)" for i
    by (simp only: iteration_events_def shift)
  have first: "iteration_events screens idx = [LCD_Display (screens ! idx), Sleep 1, Sleep 1, Sleep 1]"
    using Suc.prems by (simp add: iteration_events_def)
  have ne: "screens \<noteq> []" using Suc.prems by auto
  show ?case
    using Suc.prems ne
    by (simp only: rotation_loop.simps concat_iterations_Suc)
       (simp add: array_load_prefix smod_nat Suc.IH [OF lt] its shift first del: upt_Suc)
qed

lemma renders_append: "renders (xs @ ys) = renders xs @ renders ys"
  by (induction xs rule: renders.induct) simp_all

lemma renders_iterations:
  "renders (concat (map (iteration_events screens) [i..<j])) =
     map (\<lambda>k. screens ! (k mod length screens)) [i..<j]"
  by (induction j) (simp_all add: iteration_events_def renders_append)

lemma one_cycle:
  "map (\<lambda>k. screens ! (k mod length screens)) [c * length screens..<c * length screens + length screens]
     = screens"
proof -
  let ?n = "length screens"
  have "[c * ?n..<c * ?n + ?n] = map (\<lambda>i. i + c * ?n) [0..<?n]"
    by (simp add: map_add_upt add.commute)
  then have "map (\<lambda>k. screens ! (k mod ?n)) [c * ?n..<c * ?n + ?n] =
             map (\<lambda>i. screens ! ((i + c * ?n) mod ?n)) [0..<?n]"
    by (simp add: comp_def)
  also have "\<dots> = map (\<lambda>i. screens ! i) [0..<?n]"
    by (rule map_cong) simp_all
  also have "\<dots> = screens" by (rule map_nth)
  finally show ?thesis .
qed

lemma rotation_loop_start:
  "screens \<noteq> [] \<Longrightarrow>
   rotation_loop k (map Some screens @ rest) (int (length screens)) 0 =
     (concat (map (iteration_events screens) [0..<k]), Running (int (k mod length screens)))"
  using rotation_loop_from [of 0 screens k rest] by simp

lemma length_enabled_screens: "length (enabled_screens config) \<le> 4"
  by (simp add: enabled_screens_def)

lemma build_display_order_eq:
  "build_display_order config =
     Some (map Some (enabled_screens config) @
             replicate (4 - length (enabled_screens config)) None,
           int (length (enabled_screens config)))"
  by (cases config)
     (simp only: build_display_order_cases enabled_screens_def DisplayConfig.simps length_map)

lemma rotation_loop_empty:
  "rotation_loop fuel display_order 0 idx = ([], Returned 0)"
  by (cases fuel) simp_all

lemma main_i2c_failed:
  "i2cd env < 0 \<Longrightarrow>
   main env argv fuel = (load_trace env argv @ [Ssd1306_begin, Printf i2c_error_text], Returned 0)"
  by (simp add: main_eq build_display_order_eq)

lemma main_no_screens:
  "enabled_screens (loaded_config env argv) = [] \<Longrightarrow> \<not> i2cd env < 0 \<Longrightarrow>
   main env argv fuel =
     (load_trace env argv @ [Ssd1306_begin, Usleep 150000, FirstGetIpAddress] @
      (if show_hostname (loaded_config env argv) then [LCD_DisplayHostname, Sleep 3] else []),
      Returned 0)"
  by (simp add: main_eq build_display_order_eq rotation_loop_empty)

lemma main_rotating:
  "enabled_screens (loaded_config env argv) \<noteq> [] \<Longrightarrow> \<not> i2cd env < 0 \<Longrightarrow>
   main env argv fuel =
     (load_trace env argv @ [Ssd1306_begin, Usleep 150000, FirstGetIpAddress] @
      (if show_hostname (loaded_config env argv) then [LCD_DisplayHostname, Sleep 3] else []) @
      concat (map (iteration_events (enabled_screens (loaded_config env argv))) [0..<fuel]),
      Running (int (fuel mod length (enabled_screens (loaded_config env argv)))))"
  by (simp add: main_eq build_display_order_eq rotation_loop_start)

lemma enabled_screens_hostname:
  "show_hostname config \<Longrightarrow>
   enabled_screens config =
     map snd (filter fst [(show_temperature config, 0), (show_cpu_memory config, 1),
                          (show_sd_memory config, 2)]) @ [3]"
  by (simp add: enabled_screens_def)

lemma enabled_screens_none:
  "enabled_screens config = [] \<longleftrightarrow>
     \<not> show_temperature config \<and> \<not> show_cpu_memory config \<and>
     \<not> show_sd_memory config \<and> \<not> show_hostname config"
  by (simp add: enabled_screens_def)

lemma iteration_events_cases:
  "e \<in> set (concat (map (iteration_events screens) ks)) \<Longrightarrow>
   (\<exists>s. e = LCD_Display s) \<or> e = Sleep 1"
  by (auto simp: iteration_events_def)

lemma load_trace_cases:
  "e \<in> set (load_trace env argv) \<Longrightarrow>
   e = Load_display_config ''display.cfg'' (debug_flag argv) \<or> e = Printf warning_text"
  by (auto simp: load_trace_def split: if_splits)

lemma count_list_iterations:
  "(\<And>s. e \<noteq> LCD_Display s) \<Longrightarrow> e \<noteq> Sleep 1 \<Longrightarrow>
   count_list (concat (map (iteration_events screens) ks)) e = 0"
  using iteration_events_cases [of e screens ks] by (auto simp: count_list_0_iff)

lemma count_list_load_trace:
  "e \<noteq> Load_display_config ''display.cfg'' (debug_flag argv) \<Longrightarrow> e \<noteq> Printf warning_text \<Longrightarrow>
   count_list (load_trace env argv) e = 0"
  using load_trace_cases [of e env argv] by (auto simp: count_list_0_iff)

lemma texts_differ: "warning_text \<noteq> i2c_error_text"
  by (simp add: warning_text_def i2c_error_text_def)

lemma main_trace_shape:
  "fst (main env argv fuel) =
     load_trace env argv @ [Ssd1306_begin] @
     (if i2cd env < 0 then [Printf i2c_error_text]
      else [Usleep 150000, FirstGetIpAddress] @
           (if show_hostname (loaded_config env argv) then [LCD_DisplayHostname, Sleep 3] else []) @
           concat (map (iteration_events (enabled_screens (loaded_config env argv)))
                     (if enabled_screens (loaded_config env argv) = [] then [] else [0..<fuel])))"
  by (cases "i2cd env < 0"; cases "enabled_screens (loaded_config env argv) = []")
     (simp_all add: main_i2c_failed main_no_screens main_rotating)

lemma main_outcome:
  "snd (main env argv fuel) =
     (if i2cd env < 0 \<or> enabled_screens (loaded_config env argv) = [] then Returned 0
      else Running (int (fuel mod length (enabled_screens (loaded_config env argv)))))"
  by (cases "i2cd env < 0"; cases "enabled_screens (loaded_config env argv) = []")
     (simp_all add: main_i2c_failed main_no_screens main_rotating)

lemma debug_flag_no_args: "debug_flag [a] = False"
  by (simp add: debug_flag_def args_loop.simps)

lemma main_trace_order:
  "\<exists>display_order display_count.
     build_display_order (loaded_config env argv) = Some (display_order, display_count) \<and>
     fst (main env argv fuel) =
       [Load_display_config ''display.cfg'' (debug_flag argv)] @
       (if load_ok env argv then [] else [Printf warning_text]) @
       [Ssd1306_begin] @
       (if i2cd env < 0 then [Printf i2c_error_text]
        else [Usleep 150000, FirstGetIpAddress] @
             (if show_hostname (loaded_config env argv) then [LCD_DisplayHostname, Sleep 3]
              else []) @
             fst (rotation_loop fuel display_order display_count 0))"
  by (simp add: main_eq build_display_order_eq load_trace_def)

lemma timeline_triple_sleep:
  "timeline t ([LCD_Display s, Sleep 1, Sleep 1, Sleep 1] @ tr) =
     ((t, LCD_Display s) # fst (timeline (t + 3000000) tr), snd (timeline (t + 3000000) tr))"
  by (simp add: split_def add.assoc)

lemma timeline_single_pause:
  "timeline t ([LCD_Display s, Sleep 3] @ tr) =
     ((t, LCD_Display s) # fst (timeline (t + 3000000) tr), snd (timeline (t + 3000000) tr))"
  by (simp add: split_def)

lemma rotation_loops_agree:
  "timeline t (fst (rotation_loop k a n i)) =
     timeline t (fst (rotation_loop_single_pause k a n i)) \<and>
   snd (rotation_loop k a n i) = snd (rotation_loop_single_pause k a n i)"
proof (induction k arbitrary: t i)
  case 0
  show ?case by simp
next
  case (Suc k)
  show ?case
  proof (cases "0 < n")
    case False
    then show ?thesis by simp
  next
    case True
    show ?thesis
    proof (cases "array_load a i")
      case None
      with True show ?thesis by simp
    next
      case (Some s)
      let ?j = "(i + 1) smod n"
      have l: "rotation_loop (Suc k) a n i =
          ([LCD_Display s, Sleep 1, Sleep 1, Sleep 1] @ fst (rotation_loop k a n ?j),
           snd (rotation_loop k a n ?j))"
        using True Some by (simp add: split_def)
      have r: "rotation_loop_single_pause (Suc k) a n i =
          ([LCD_Display s, Sleep 3] @ fst (rotation_loop_single_pause k a n ?j),
           snd (rotation_loop_single_pause k a n ?j))"
        using True Some by (simp add: split_def)
      show ?thesis
        unfolding l r fst_conv snd_conv timeline_triple_sleep timeline_single_pause
        using Suc.IH [of "t + 3000000" ?j] by simp
    qed
  qed
qed

lemma timeline_append:
  "timeline t (xs @ ys) =
     (fst (timeline t xs) @ fst (timeline (snd (timeline t xs)) ys),
      snd (timeline (snd (timeline t xs)) ys))"
  by (induction t xs rule: timeline.induct) (simp_all add: split_def)

lemma timeline_iterations:
  "screens \<noteq> [] \<Longrightarrow>
   timeline t (concat (map (iteration_events screens) [0..<k])) =
     (map (\<lambda>j. (t + j * 3000000, LCD_Display (screens ! (j mod length screens)))) [0..<k],
      t + k * 3000000)"
proof (induction k)
  case 0
  show ?case by simp
next
  case (Suc k)
  have one: "timeline u (iteration_events screens k) =
      ([(u, LCD_Display (screens ! (k mod length screens)))], u + 3000000)" for u
    by (simp add: iteration_events_def add.assoc)
  show ?case
    using Suc by (simp add: timeline_append one add.assoc)
qed

lemma debug_flag_iff_index:
  "debug_flag argv \<longleftrightarrow>
     (\<exists>i. 1 \<le> i \<and> i < length argv \<and> (argv ! i = ''-d'' \<or> argv ! i = ''--debug''))"
  by (simp add: debug_flag_def args_loop_char)

lemma ex_index_Cons:
  "(\<exists>i. 1 \<le> i \<and> i < length (a # args) \<and> P ((a # args) ! i)) \<longleftrightarrow> (\<exists>x \<in> set args. P x)"
  (is "?L \<longleftrightarrow> ?R")
proof
  assume ?L
  then obtain i where i: "1 \<le> i" "i < length (a # args)" "P ((a # args) ! i)" by blast
  then obtain j where j: "i = Suc j" by (cases i) auto
  with i have "j < length args" "P (args ! j)" by simp_all
  then show ?R using nth_mem by blast
next
  assume ?R
  then obtain x where x: "x \<in> set args" "P x" by blast
  then obtain j where "j < length args" "args ! j = x" by (auto simp: in_set_conv_nth)
  with x have "1 \<le> Suc j \<and> Suc j < length (a # args) \<and> P ((a # args) ! Suc j)" by simp
  then show ?L by blast
qed

lemma debug_flag_Cons:
  "debug_flag (a # args) \<longleftrightarrow> (\<exists>x \<in> set args. x = ''-d'' \<or> x = ''--debug'')"
  unfolding debug_flag_iff_index
  by (rule ex_index_Cons [of a args "\<lambda>x. x = ''-d'' \<or> x = ''--debug''"])

lemma debug_flag_filter:
  "debug_flag (a # filter (\<lambda>x. x = ''-d'' \<or> x = ''--debug'') args) = debug_flag (a # args)"
proof -
  have "(\<exists>x \<in> set (filter P args). P x) \<longleftrightarrow> (\<exists>x \<in> set args. P x)" for P :: "string \<Rightarrow> bool"
    by auto
  then show ?thesis unfolding debug_flag_Cons .
qed

lemma main_depends_on_debug_flag:
  "debug_flag argv' = debug_flag argv \<Longrightarrow> main env argv' fuel = main env argv fuel"
  by (simp add: main_def debug_flag_def)

section \<open>The rotation list and the loop\<close>

text \<open>
  Claim C1. For every combination of the four flags, the rotation list built at startup
  holds exactly the identifiers of the enabled screens, in the fixed order temperature 0,
  cpu_memory 1, sd_memory 2, hostname 3, and nothing else: it is the list of the four
  identifiers filtered by their flags. The flags of the spec's example yield \<open>[0, 2]\<close>.
\<close>

theorem rotation_list_enabled_in_order:
  "rotation_list config =
     Some (map snd (filter fst [(show_temperature config, 0), (show_cpu_memory config, 1),
                                 (show_sd_memory config, 2), (show_hostname config, 3)]))"
  by (rule rotation_list_eq)

theorem rotation_list_example:
  "rotation_list \<lparr>show_temperature = True, show_cpu_memory = False,
                   show_sd_memory = True, show_hostname = False\<rparr> = Some [0, 2]"
  using rotation_list_enabled_in_order
    [of "\<lparr>show_temperature = True, show_cpu_memory = False,
          show_sd_memory = True, show_hostname = False\<rparr>"]
  by simp

text \<open>
  Claim C2. On a rotation list \<open>screens\<close> of length \<open>n > 0\<close>, held in the first \<open>n\<close> slots of
  the array, the loop started with the cursor at 0 runs for ever: whatever the number \<open>k\<close>
  of iterations allowed, it performs all \<open>k\<close> of them and is still running. Iteration \<open>i\<close>
  renders the screen at position \<open>i mod n\<close> (so the cursor goes through 0, 1, ..., n - 1
  and wraps to 0), the cursor after \<open>k\<close> iterations is \<open>k mod n\<close>, and the screens rendered
  in the \<open>n\<close> iterations of any full cycle are the rotation list itself, each position once.
\<close>

theorem rotation_loop_cycles:
  assumes "screens \<noteq> []"
  shows "rotation_loop k (map Some screens @ rest) (int (length screens)) 0 =
           (concat (map (iteration_events screens) [0..<k]),
            Running (int (k mod length screens)))
       \<and> renders (fst (rotation_loop (c * length screens + length screens)
                         (map Some screens @ rest) (int (length screens)) 0)) =
         renders (fst (rotation_loop (c * length screens)
                         (map Some screens @ rest) (int (length screens)) 0)) @ screens"
proof
  show "rotation_loop k (map Some screens @ rest) (int (length screens)) 0 =
           (concat (map (iteration_events screens) [0..<k]),
            Running (int (k mod length screens)))"
    using assms by (rule rotation_loop_start)
next
  let ?n = "length screens"
  let ?g = "\<lambda>k. screens ! (k mod ?n)"
  let ?run = "\<lambda>k. rotation_loop k (map Some screens @ rest) (int ?n) 0"
  have run: "renders (fst (?run k)) = map ?g [0..<k]" for k
    by (simp add: rotation_loop_start [OF assms] renders_iterations)
  have upt: "[0..<c * ?n + ?n] = [0..<c * ?n] @ [c * ?n..<c * ?n + ?n]"
    by (rule upt_add_eq_append) simp
  have "renders (fst (?run (c * ?n + ?n))) = map ?g [0..<c * ?n + ?n]"
    by (rule run)
  also have "\<dots> = map ?g [0..<c * ?n] @ map ?g [c * ?n..<c * ?n + ?n]"
    by (simp only: upt map_append)
  also have "\<dots> = map ?g [0..<c * ?n] @ screens"
    by (simp only: one_cycle)
  also have "\<dots> = renders (fst (?run (c * ?n))) @ screens"
    by (simp only: run)
  finally show "renders (fst (?run (c * ?n + ?n))) = renders (fst (?run (c * ?n))) @ screens" .
qed

theorem rotation_loop_cycles_witness:
  "[0, 2 :: int] \<noteq> [] \<and>
   rotation_loop 3 [Some 0, Some 2, None, None] 2 0 =
     ([LCD_Display 0, Sleep 1, Sleep 1, Sleep 1,
       LCD_Display 2, Sleep 1, Sleep 1, Sleep 1,
       LCD_Display 0, Sleep 1, Sleep 1, Sleep 1], Running 1) \<and>
   renders (fst (rotation_loop 4 [Some 0, Some 2, None, None] 2 0)) =
     renders (fst (rotation_loop 2 [Some 0, Some 2, None, None] 2 0)) @ [0, 2]"
  using rotation_loop_cycles [of "[0, 2]" 3 "[None, None]" 1]
  by (simp add: iteration_events_def upt_rec array_load_def signed_modulo_int_def
       eval_nat_numeral)

section \<open>Startup\<close>

text \<open>
  Claim C3. When the loaded configuration has \<open>show_hostname\<close> set and the I2C device
  opened, \<^verbatim>\<open>LCD_DisplayHostname\<close> is called exactly once in the whole run: after the IP
  address resolution and before the first iteration of the rotation loop, followed by one
  pause of 3 seconds. No rendering call comes earlier. The identifier 3 is moreover the
  last entry of the rotation list, so \<^verbatim>\<open>LCD_Display(3)\<close> is called in rotation as soon as the
  loop has run through the entries before it.
\<close>

theorem hostname_splash_and_rotation:
  assumes "show_hostname (loaded_config env argv)" and "0 \<le> i2cd env"
  shows "(\<exists>screens.
            rotation_list (loaded_config env argv) = Some (screens @ [3]) \<and>
            fst (main env argv fuel) =
              load_trace env argv @
              [Ssd1306_begin, Usleep 150000, FirstGetIpAddress, LCD_DisplayHostname, Sleep 3] @
              concat (map (iteration_events (screens @ [3])) [0..<fuel]) \<and>
            (length screens < fuel \<longrightarrow> LCD_Display 3 \<in> set (fst (main env argv fuel))))
       \<and> count_list (fst (main env argv fuel)) LCD_DisplayHostname = 1
       \<and> (\<forall>e \<in> set (load_trace env argv). \<not> is_render e)"
proof -
  let ?cfg = "loaded_config env argv"
  let ?pre = "map snd (filter fst [(show_temperature ?cfg, 0::int), (show_cpu_memory ?cfg, 1),
                          (show_sd_memory ?cfg, 2)])"
  have en: "enabled_screens ?cfg = ?pre @ [3]"
    using assms(1) by (rule enabled_screens_hostname)
  then have ne: "enabled_screens ?cfg \<noteq> []" by simp
  have i2c: "\<not> i2cd env < 0" using assms(2) by simp
  have tr: "fst (main env argv fuel) =
              load_trace env argv @
              [Ssd1306_begin, Usleep 150000, FirstGetIpAddress, LCD_DisplayHostname, Sleep 3] @
              concat (map (iteration_events (?pre @ [3])) [0..<fuel])"
    using assms(1) by (simp add: main_rotating [OF ne i2c] en)
  have rl: "rotation_list ?cfg = Some (?pre @ [3])"
    using en by (simp add: rotation_list_eq enabled_screens_def)
  have periodic: "LCD_Display 3 \<in> set (fst (main env argv fuel))" if "length ?pre < fuel"
  proof -
    have "LCD_Display 3 \<in> set (iteration_events (?pre @ [3]) (length ?pre))"
      by (simp add: iteration_events_def)
    moreover have "length ?pre \<in> set [0..<fuel]" using that by simp
    ultimately have "LCD_Display 3 \<in> set (concat (map (iteration_events (?pre @ [3])) [0..<fuel]))"
      unfolding set_concat by (metis (no_types, lifting) UN_I image_eqI list.set_map)
    then show ?thesis unfolding tr by simp
  qed
  have once: "count_list (fst (main env argv fuel)) LCD_DisplayHostname = 1"
    unfolding tr by (simp add: count_list_iterations count_list_load_trace)
  have before: "\<forall>e \<in> set (load_trace env argv). \<not> is_render e"
    by (auto dest: load_trace_cases)
  from rl tr periodic once before show ?thesis by blast
qed

theorem hostname_splash_and_rotation_witness:
  "show_hostname (loaded_config (sample_env True default_config 3) [''display'']) \<and>
   0 \<le> i2cd (sample_env True default_config 3) \<and>
   count_list (fst (main (sample_env True default_config 3) [''display''] 5))
     LCD_DisplayHostname = 1"
proof -
  have h1: "show_hostname (loaded_config (sample_env True default_config 3) [''display''])"
    by (simp add: loaded_config_def sample_env_def loader_yielding_def default_config_def)
  have h2: "0 \<le> i2cd (sample_env True default_config 3)"
    by (simp add: sample_env_def)
  from hostname_splash_and_rotation [OF h1 h2, of 5] h1 h2 show ?thesis by blast
qed

text \<open>
  Claim C4. With the loader as the spec describes it (it reports failure and leaves the
  configuration it was handed), a failed load does not stop \<^verbatim>\<open>main\<close>. The whole run is
  fixed: the loader's call, the warning (exactly once in the trace), \<^verbatim>\<open>ssd1306_begin\<close>, and
  then either the I2C error message and return 0, or the 150 ms wait, the IP address
  resolution, the hostname splash with its pause, and the rotation loop on the list
  \<open>[0, 1, 2, 3]\<close>, iteration \<open>i\<close> rendering screen \<open>i mod 4\<close>. The configuration \<^verbatim>\<open>main\<close> works
  with is the one it handed to the loader, all four flags true, and the array it builds
  holds 0, 1, 2, 3 with a count of 4.
\<close>

theorem load_failure_uses_defaults:
  assumes "loader env = load_display_config None"
  shows "\<not> load_ok env argv
       \<and> loaded_config env argv =
           \<lparr>show_temperature = True, show_cpu_memory = True,
            show_sd_memory = True, show_hostname = True\<rparr>
       \<and> rotation_list (loaded_config env argv) = Some [0, 1, 2, 3]
       \<and> build_display_order (loaded_config env argv) =
           Some ([Some 0, Some 1, Some 2, Some 3], 4)
       \<and> count_list (fst (main env argv fuel)) (Printf warning_text) = 1
       \<and> main env argv fuel =
           ([Load_display_config ''display.cfg'' (debug_flag argv),
             Printf warning_text, Ssd1306_begin] @
            (if i2cd env < 0 then [Printf i2c_error_text]
             else [Usleep 150000, FirstGetIpAddress, LCD_DisplayHostname, Sleep 3] @
                  concat (map (\<lambda>i. [LCD_Display ([0, 1, 2, 3] ! (i mod 4)),
                                       Sleep 1, Sleep 1, Sleep 1]) [0..<fuel])),
            if i2cd env < 0 then Returned 0 else Running (int (fuel mod 4)))"
proof -
  have ok: "\<not> load_ok env argv"
    by (simp add: load_ok_def assms load_display_config_def)
  have cfg: "loaded_config env argv =
           \<lparr>show_temperature = True, show_cpu_memory = True,
            show_sd_memory = True, show_hostname = True\<rparr>"
    by (simp add: loaded_config_def assms load_display_config_def default_config_def)
  have rl: "rotation_list (loaded_config env argv) = Some [0, 1, 2, 3]"
    by (simp add: rotation_list_eq cfg)
  have en: "enabled_screens (loaded_config env argv) = [0, 1, 2, 3]"
    by (simp add: enabled_screens_def cfg)
  have bd: "build_display_order (loaded_config env argv) =
           Some ([Some 0, Some 1, Some 2, Some 3], 4)"
    by (simp add: build_display_order_eq en)
  have hn: "show_hostname (loaded_config env argv)"
    by (simp add: cfg)
  have lt: "load_trace env argv =
      [Load_display_config ''display.cfg'' (debug_flag argv), Printf warning_text]"
    using ok by (simp add: load_trace_def)
  have once: "count_list (fst (main env argv fuel)) (Printf warning_text) = 1"
    by (simp add: main_trace_shape lt count_list_iterations texts_differ
          texts_differ [symmetric])
  have tr: "fst (main env argv fuel) =
            [Load_display_config ''display.cfg'' (debug_flag argv),
             Printf warning_text, Ssd1306_begin] @
            (if i2cd env < 0 then [Printf i2c_error_text]
             else [Usleep 150000, FirstGetIpAddress, LCD_DisplayHostname, Sleep 3] @
                  concat (map (\<lambda>i. [LCD_Display ([0, 1, 2, 3] ! (i mod 4)),
                                       Sleep 1, Sleep 1, Sleep 1]) [0..<fuel]))"
    by (simp add: main_trace_shape lt en hn iteration_events_def [abs_def])
  have out: "snd (main env argv fuel) =
            (if i2cd env < 0 then Returned 0 else Running (int (fuel mod 4)))"
    by (simp add: main_outcome en)
  have run: "main env argv fuel =
           ([Load_display_config ''display.cfg'' (debug_flag argv),
             Printf warning_text, Ssd1306_begin] @
            (if i2cd env < 0 then [Printf i2c_error_text]
             else [Usleep 150000, FirstGetIpAddress, LCD_DisplayHostname, Sleep 3] @
                  concat (map (\<lambda>i. [LCD_Display ([0, 1, 2, 3] ! (i mod 4)),
                                       Sleep 1, Sleep 1, Sleep 1]) [0..<fuel])),
            if i2cd env < 0 then Returned 0 else Running (int (fuel mod 4)))"
    by (rule prod_eqI) (simp_all only: fst_conv snd_conv tr out)
  show ?thesis
    by (intro conjI) (rule ok cfg rl bd once run)+
qed

theorem load_failure_uses_defaults_witness:
  "loader \<lparr>loader = load_display_config None, i2cd = 3\<rparr> = load_display_config None \<and>
   rotation_list (loaded_config \<lparr>loader = load_display_config None, i2cd = 3\<rparr> [''display'', ''-d''])
     = Some [0, 1, 2, 3] \<and>
   count_list (fst (main \<lparr>loader = load_display_config None, i2cd = 3\<rparr> [''display'', ''-d''] 5))
     (Printf warning_text) = 1 \<and>
   main \<lparr>loader = load_display_config None, i2cd = 3\<rparr> [''display'', ''-d''] 5 =
     ([Load_display_config ''display.cfg'' True, Printf warning_text, Ssd1306_begin,
       Usleep 150000, FirstGetIpAddress, LCD_DisplayHostname, Sleep 3,
       LCD_Display 0, Sleep 1, Sleep 1, Sleep 1,
       LCD_Display 1, Sleep 1, Sleep 1, Sleep 1,
       LCD_Display 2, Sleep 1, Sleep 1, Sleep 1,
       LCD_Display 3, Sleep 1, Sleep 1, Sleep 1,
       LCD_Display 0, Sleep 1, Sleep 1, Sleep 1], Running 1)"
proof -
  have h: "loader \<lparr>loader = load_display_config None, i2cd = 3\<rparr> = load_display_config None"
    by simp
  have d: "debug_flag [''display'', ''-d'']"
    by (simp add: debug_flag_Cons)
  from load_failure_uses_defaults [OF h, of "[''display'', ''-d'']" 5] h d
  show ?thesis by (simp add: upt_rec rotation_list_eq)
qed

section \<open>Ways out of main\<close>

text \<open>
  Claim C5. Whenever \<^verbatim>\<open>main\<close> returns, it returns 0. In particular, when the I2C device
  fails to open (\<^verbatim>\<open>i2cd < 0\<close> after \<^verbatim>\<open>ssd1306_begin\<close>), the error message is printed, nothing
  else happens and \<^verbatim>\<open>main\<close> returns 0, the status of a normal exit.
\<close>

theorem exit_status_always_zero:
  "(\<forall>status. snd (main env argv fuel) = Returned status \<longrightarrow> status = 0)
   \<and> (i2cd env < 0 \<longrightarrow>
        main env argv fuel =
          (load_trace env argv @ [Ssd1306_begin, Printf i2c_error_text], Returned 0))"
  by (simp add: main_outcome main_i2c_failed)

theorem exit_status_always_zero_witness:
  "i2cd (sample_env True config_0_2 (- 1)) < 0 \<and>
   main (sample_env True config_0_2 (- 1)) [''display''] 4 =
     ([Load_display_config ''display.cfg'' False, Ssd1306_begin, Printf i2c_error_text],
      Returned 0)"
proof -
  have h: "i2cd (sample_env True config_0_2 (- 1)) < 0"
    by (simp add: sample_env_def)
  have d: "debug_flag [''display''] = False"
    by (simp add: debug_flag_def args_loop.simps)
  have l: "load_trace (sample_env True config_0_2 (- 1)) [''display''] =
     [Load_display_config ''display.cfg'' False]"
    by (simp add: load_trace_def load_ok_def d sample_env_def loader_yielding_def)
  from exit_status_always_zero [of "sample_env True config_0_2 (- 1)" "[''display'']" 4] h l
  show ?thesis by simp
qed

text \<open>
  Claim C6. When all four flags of the loaded configuration are false and the I2C device
  opened, \<^verbatim>\<open>main\<close> resolves the IP address and returns 0 whatever the fuel, also with none:
  the rotation list is empty, the loop condition is false at once and no iteration is
  run. The trace has no call of \<^verbatim>\<open>LCD_Display\<close> and none of \<^verbatim>\<open>LCD_DisplayHostname\<close>.
\<close>

theorem all_disabled_exits_without_rendering:
  assumes "\<not> show_temperature (loaded_config env argv)"
      and "\<not> show_cpu_memory (loaded_config env argv)"
      and "\<not> show_sd_memory (loaded_config env argv)"
      and "\<not> show_hostname (loaded_config env argv)"
      and "0 \<le> i2cd env"
  shows "main env argv fuel =
           (load_trace env argv @ [Ssd1306_begin, Usleep 150000, FirstGetIpAddress], Returned 0)
       \<and> (\<forall>e \<in> set (fst (main env argv fuel)). \<not> is_render e)
       \<and> (\<exists>display_order.
             build_display_order (loaded_config env argv) = Some (display_order, 0) \<and>
             rotation_loop fuel display_order 0 0 = ([], Returned 0))"
proof -
  have en: "enabled_screens (loaded_config env argv) = []"
    using assms by (simp add: enabled_screens_none)
  have i2c: "\<not> i2cd env < 0" using assms(5) by simp
  have m: "main env argv fuel =
           (load_trace env argv @ [Ssd1306_begin, Usleep 150000, FirstGetIpAddress], Returned 0)"
    using assms(4) by (simp add: main_no_screens [OF en i2c])
  have r: "\<forall>e \<in> set (fst (main env argv fuel)). \<not> is_render e"
    unfolding m by (auto dest: load_trace_cases)
  have b: "\<exists>display_order.
             build_display_order (loaded_config env argv) = Some (display_order, 0) \<and>
             rotation_loop fuel display_order 0 0 = ([], Returned 0)"
    by (simp add: build_display_order_eq en rotation_loop_empty)
  from m r b show ?thesis by blast
qed

theorem all_disabled_exits_without_rendering_witness:
  "\<not> show_temperature (loaded_config (sample_env True config_none 3) [''display'']) \<and>
   \<not> show_cpu_memory (loaded_config (sample_env True config_none 3) [''display'']) \<and>
   \<not> show_sd_memory (loaded_config (sample_env True config_none 3) [''display'']) \<and>
   \<not> show_hostname (loaded_config (sample_env True config_none 3) [''display'']) \<and>
   0 \<le> i2cd (sample_env True config_none 3) \<and>
   main (sample_env True config_none 3) [''display''] 9 =
     ([Load_display_config ''display.cfg'' False, Ssd1306_begin, Usleep 150000,
       FirstGetIpAddress], Returned 0)"
proof -
  have h1: "\<not> show_temperature (loaded_config (sample_env True config_none 3) [''display''])"
   and h2: "\<not> show_cpu_memory (loaded_config (sample_env True config_none 3) [''display''])"
   and h3: "\<not> show_sd_memory (loaded_config (sample_env True config_none 3) [''display''])"
   and h4: "\<not> show_hostname (loaded_config (sample_env True config_none 3) [''display''])"
    by (simp_all add: loaded_config_def sample_env_def loader_yielding_def config_none_def)
  have h5: "0 \<le> i2cd (sample_env True config_none 3)"
    by (simp add: sample_env_def)
  have d: "debug_flag [''display''] = False"
    by (simp add: debug_flag_def args_loop.simps)
  have l: "load_trace (sample_env True config_none 3) [''display''] =
     [Load_display_config ''display.cfg'' False]"
    by (simp add: load_trace_def load_ok_def d sample_env_def loader_yielding_def)
  from all_disabled_exits_without_rendering [OF h1 h2 h3 h4 h5, of 9] h1 h2 h3 h4 h5 l
  show ?thesis by simp
qed

section \<open>Order of the startup steps\<close>

text \<open>
  Claim C7, as the spec states it: the driver is initialised first, then the configuration
  is loaded. The source calls \<^verbatim>\<open>load_display_config\<close> on line 22 and \<^verbatim>\<open>ssd1306_begin\<close> on
  line 30: in the run below, with the spec's example configuration and two iterations of
  the loop, the loader's call is the first event and \<^verbatim>\<open>ssd1306_begin\<close> the second.
\<close>

theorem driver_initialised_after_load:
  "fst (main (sample_env True config_0_2 3) [''display''] 2) =
     [Load_display_config ''display.cfg'' False, Ssd1306_begin, Usleep 150000,
      FirstGetIpAddress,
      LCD_Display 0, Sleep 1, Sleep 1, Sleep 1,
      LCD_Display 2, Sleep 1, Sleep 1, Sleep 1] \<and>
   \<not> precedes Ssd1306_begin (Load_display_config ''display.cfg'' False)
       (fst (main (sample_env True config_0_2 3) [''display''] 2))"
proof -
  have c: "loaded_config (sample_env True config_0_2 3) [''display''] = config_0_2"
    by (simp add: loaded_config_def sample_env_def loader_yielding_def)
  have l: "load_trace (sample_env True config_0_2 3) [''display''] =
     [Load_display_config ''display.cfg'' False]"
    by (simp add: load_trace_def load_ok_def debug_flag_no_args sample_env_def
        loader_yielding_def)
  have e: "enabled_screens config_0_2 = [0, 2]"
    by (simp add: enabled_screens_def config_0_2_def)
  have i: "i2cd (sample_env True config_0_2 3) = 3"
    by (simp add: sample_env_def)
  have s: "\<not> show_hostname config_0_2"
    by (simp add: config_0_2_def)
  have t: "fst (main (sample_env True config_0_2 3) [''display''] 2) =
     [Load_display_config ''display.cfg'' False, Ssd1306_begin, Usleep 150000,
      FirstGetIpAddress,
      LCD_Display 0, Sleep 1, Sleep 1, Sleep 1,
      LCD_Display 2, Sleep 1, Sleep 1, Sleep 1]"
    by (simp add: main_trace_shape c l e i s iteration_events_def upt_rec)
  show ?thesis unfolding t by (simp add: precedes_def)
qed

text \<open>
  Claim C7, amended. Every run of \<^verbatim>\<open>main\<close> performs its operations in this order: it loads
  the configuration (printing the warning when the loader reports failure; a loader that
  fails as the spec describes leaves the all-enabled defaults), the rotation list is built
  from the loaded configuration, the display driver is initialised, and then, when the I2C
  device opened, \<^verbatim>\<open>main\<close> waits 150 ms, resolves the IP address, shows the hostname once if
  its flag is set and enters the rotation loop on the list built.
\<close>

theorem startup_order:
  "(\<exists>display_order display_count.
      build_display_order (loaded_config env argv) = Some (display_order, display_count) \<and>
      fst (main env argv fuel) =
        [Load_display_config ''display.cfg'' (debug_flag argv)] @
        (if load_ok env argv then [] else [Printf warning_text]) @
        [Ssd1306_begin] @
        (if i2cd env < 0 then [Printf i2c_error_text]
         else [Usleep 150000, FirstGetIpAddress] @
              (if show_hostname (loaded_config env argv) then [LCD_DisplayHostname, Sleep 3]
               else []) @
              fst (rotation_loop fuel display_order display_count 0)))
   \<and> precedes (Load_display_config ''display.cfg'' (debug_flag argv)) Ssd1306_begin
        (fst (main env argv fuel))
   \<and> (loader env = load_display_config None \<longrightarrow>
        \<not> load_ok env argv \<and> loaded_config env argv = default_config)"
proof -
  have p: "precedes (Load_display_config ''display.cfg'' (debug_flag argv)) Ssd1306_begin
        (fst (main env argv fuel))"
    by (simp add: main_trace_shape load_trace_def precedes_def)
  have f: "loader env = load_display_config None \<longrightarrow>
        \<not> load_ok env argv \<and> loaded_config env argv = default_config"
    by (simp add: load_ok_def loaded_config_def load_display_config_def)
  from main_trace_order [of env argv fuel] p f show ?thesis by blast
qed

theorem startup_order_witness:
  "loader \<lparr>loader = load_display_config None, i2cd = 3\<rparr> = load_display_config None \<and>
   \<not> i2cd \<lparr>loader = load_display_config None, i2cd = 3\<rparr> < 0 \<and>
   precedes (Load_display_config ''display.cfg'' False) Ssd1306_begin
     (fst (main \<lparr>loader = load_display_config None, i2cd = 3\<rparr> [''display''] 2)) \<and>
   loaded_config \<lparr>loader = load_display_config None, i2cd = 3\<rparr> [''display''] = default_config"
  using startup_order [of "\<lparr>loader = load_display_config None, i2cd = 3\<rparr>" "[''display'']" 2]
  by (simp add: debug_flag_no_args)

section \<open>The pause between screens\<close>

text \<open>
  Claim C8. Every iteration of the rotation loop is a render followed by three calls
  \<^verbatim>\<open>sleep(1)\<close>. On the timeline (what is seen, and when) the loop is the same as the loop
  of the spec's wording, which pauses once for 3 units: the two have the same timeline
  and the same outcome from any start. On a rotation list \<open>screens\<close> the render of
  iteration \<open>j\<close> happens 3 seconds times \<open>j\<close> after the loop started, so the delay between
  consecutive renders is 3 seconds in every iteration.
\<close>

theorem triple_sleep_is_one_pause_of_three:
  "timeline t (fst (rotation_loop k a n i)) =
     timeline t (fst (rotation_loop_single_pause k a n i))
   \<and> snd (rotation_loop k a n i) = snd (rotation_loop_single_pause k a n i)
   \<and> (screens \<noteq> [] \<longrightarrow>
        fst (rotation_loop k (map Some screens @ rest) (int (length screens)) 0) =
          concat (map (\<lambda>j. [LCD_Display (screens ! (j mod length screens)),
                               Sleep 1, Sleep 1, Sleep 1]) [0..<k]) \<and>
        timeline t (fst (rotation_loop k (map Some screens @ rest) (int (length screens)) 0)) =
          (map (\<lambda>j. (t + j * 3000000, LCD_Display (screens ! (j mod length screens)))) [0..<k],
           t + k * 3000000))"
proof -
  have tr: "fst (rotation_loop k (map Some screens @ rest) (int (length screens)) 0) =
          concat (map (\<lambda>j. [LCD_Display (screens ! (j mod length screens)),
                               Sleep 1, Sleep 1, Sleep 1]) [0..<k])"
    if "screens \<noteq> []"
    using rotation_loop_start [OF that, of k rest]
    by (simp add: iteration_events_def [abs_def])
  have tl: "timeline t (fst (rotation_loop k (map Some screens @ rest) (int (length screens)) 0)) =
          (map (\<lambda>j. (t + j * 3000000, LCD_Display (screens ! (j mod length screens)))) [0..<k],
           t + k * 3000000)"
    if "screens \<noteq> []"
    by (simp only: rotation_loop_start [OF that] fst_conv timeline_iterations [OF that])
  from rotation_loops_agree [of t k a n i] tr tl show ?thesis by blast
qed

theorem triple_sleep_is_one_pause_of_three_witness:
  "[0, 2 :: int] \<noteq> [] \<and>
   timeline 0 (fst (rotation_loop 3 [Some 0, Some 2, None, None] 2 0)) =
     ([(0, LCD_Display 0), (3000000, LCD_Display 2), (6000000, LCD_Display 0)], 9000000) \<and>
   timeline 0 (fst (rotation_loop_single_pause 3 [Some 0, Some 2, None, None] 2 0)) =
     ([(0, LCD_Display 0), (3000000, LCD_Display 2), (6000000, LCD_Display 0)], 9000000)"
  using triple_sleep_is_one_pause_of_three
    [of 0 3 "[Some 0, Some 2, None, None]" 2 0 "[0, 2]" "[None, None]"]
  by (auto simp add: upt_rec)


section \<open>Array bounds\<close>

text \<open>
  Claim C9. For every configuration the four guarded stores succeed on the four-element
  array and leave a count between 0 and 4. When the count is positive the cursor reached
  after any number of iterations lies in \<open>0 \<le> idx < display_count\<close>, no load in the loop
  is out of bounds or reads a slot that was not written, and no run of \<^verbatim>\<open>main\<close> ends in
  undefined behaviour.
\<close>

theorem array_accesses_in_bounds:
  "(\<exists>display_order display_count.
      build_display_order config = Some (display_order, display_count) \<and>
      length display_order = 4 \<and> 0 \<le> display_count \<and> display_count \<le> 4 \<and>
      (0 < display_count \<longrightarrow>
         (\<exists>idx. snd (rotation_loop fuel display_order display_count 0) = Running idx \<and>
                0 \<le> idx \<and> idx < display_count)) \<and>
      snd (rotation_loop fuel display_order display_count 0) \<noteq> Undefined_behaviour)
   \<and> snd (main env argv fuel) \<noteq> Undefined_behaviour"
proof -
  let ?xs = "enabled_screens config"
  let ?a = "map Some ?xs @ replicate (4 - length ?xs) None"
  have len: "length ?xs \<le> 4" by (rule length_enabled_screens)
  have b: "build_display_order config = Some (?a, int (length ?xs))"
    by (rule build_display_order_eq)
  have l: "length ?a = 4" using len by simp
  have run: "\<exists>idx. snd (rotation_loop fuel ?a (int (length ?xs)) 0) = Running idx \<and>
                0 \<le> idx \<and> idx < int (length ?xs)"
    if "0 < int (length ?xs)"
  proof -
    from that have ne: "?xs \<noteq> []" by auto
    then have "fuel mod length ?xs < length ?xs" by simp
    then show ?thesis by (simp add: rotation_loop_start [OF ne])
  qed
  have ub: "snd (rotation_loop fuel ?a (int (length ?xs)) 0) \<noteq> Undefined_behaviour"
    by (cases "?xs = []") (simp_all add: rotation_loop_empty rotation_loop_start)
  have m: "snd (main env argv fuel) \<noteq> Undefined_behaviour"
    by (simp add: main_outcome)
  from b l len run ub m show ?thesis by auto
qed

theorem array_accesses_in_bounds_witness:
  "0 < (2::int) \<and>
   build_display_order config_0_2 = Some ([Some 0, Some 2, None, None], 2) \<and>
   snd (rotation_loop 5 [Some 0, Some 2, None, None] 2 0) = Running 1 \<and>
   snd (main (sample_env True config_0_2 3) [''display''] 5) \<noteq> Undefined_behaviour"
proof -
  have b: "build_display_order config_0_2 = Some ([Some 0, Some 2, None, None], 2)"
    by (simp add: build_display_order_eq enabled_screens_def config_0_2_def
        eval_nat_numeral)
  have r: "snd (rotation_loop 5 [Some 0, Some 2, None, None] 2 0) = Running 1"
    by (simp add: eval_nat_numeral array_load_def signed_modulo_int_def)
  from array_accesses_in_bounds [of config_0_2 5 "sample_env True config_0_2 3" "[''display'']"]
    b r show ?thesis by simp
qed

section \<open>Command line\<close>

text \<open>
  Claim C10. The debug flag is true exactly when some argument at a position from 1 on is
  \<^verbatim>\<open>-d\<close> or \<^verbatim>\<open>--debug\<close>, and it is the flag handed to the loader, the first call of
  \<^verbatim>\<open>main\<close>. The command line matters through this flag only: two command lines with the
  same flag give the same run, dropping every other argument after the program name
  changes nothing, and no command line leads to an error.
\<close>

theorem debug_flag_from_arguments:
  "(debug_flag argv \<longleftrightarrow>
      (\<exists>i. 1 \<le> i \<and> i < length argv \<and> (argv ! i = ''-d'' \<or> argv ! i = ''--debug'')))
   \<and> hd (fst (main env argv fuel)) = Load_display_config ''display.cfg'' (debug_flag argv)
   \<and> (debug_flag argv' = debug_flag argv \<longrightarrow> main env argv' fuel = main env argv fuel)
   \<and> main env (a # filter (\<lambda>x. x = ''-d'' \<or> x = ''--debug'') args) fuel =
       main env (a # args) fuel
   \<and> snd (main env argv fuel) \<noteq> Undefined_behaviour"
proof (intro conjI impI)
  show "debug_flag argv \<longleftrightarrow>
      (\<exists>i. 1 \<le> i \<and> i < length argv \<and> (argv ! i = ''-d'' \<or> argv ! i = ''--debug''))"
    by (rule debug_flag_iff_index)
  show "hd (fst (main env argv fuel)) = Load_display_config ''display.cfg'' (debug_flag argv)"
    by (simp add: main_trace_shape load_trace_def)
  show "main env argv' fuel = main env argv fuel" if "debug_flag argv' = debug_flag argv"
    using that by (rule main_depends_on_debug_flag)
  show "main env (a # filter (\<lambda>x. x = ''-d'' \<or> x = ''--debug'') args) fuel =
       main env (a # args) fuel"
    using debug_flag_filter by (rule main_depends_on_debug_flag)
  show "snd (main env argv fuel) \<noteq> Undefined_behaviour"
    by (simp add: main_outcome)
qed

theorem debug_flag_from_arguments_witness:
  "debug_flag [''display'', ''-x'', ''--debug'', ''-d''] \<and>
   debug_flag [''display'', ''-d''] = debug_flag [''display'', ''-x'', ''--debug'', ''-d''] \<and>
   main (sample_env True config_0_2 3) [''display'', ''-d''] 4 =
     main (sample_env True config_0_2 3) [''display'', ''-x'', ''--debug'', ''-d''] 4 \<and>
   \<not> debug_flag [''-d'', ''file'']"
proof -
  have a: "debug_flag [''display'', ''-x'', ''--debug'', ''-d'']"
    by (simp add: debug_flag_Cons)
  have b: "debug_flag [''display'', ''-d'']"
    by (simp add: debug_flag_Cons)
  have c: "\<not> debug_flag [''-d'', ''file'']"
    by (simp add: debug_flag_Cons)
  from debug_flag_from_arguments
    [of "[''display'', ''-x'', ''--debug'', ''-d'']" "sample_env True config_0_2 3" 4
        "[''display'', ''-d'']"]
    a b c show ?thesis by simp
qed

end
